theory Spec2Isabelle
  imports Complex_Main "HOL-Library.While_Combinator"
begin

section \<open>Lempel-Ziv complexity: neurokit2/complexity/complexity_lempelziv.py\<close>

subsection \<open>Python and numpy values\<close>

text \<open>
  The exceptions the module can raise. It has no \<open>raise\<close> statement of its own:
  \<open>IndexError\<close> comes from indexing a numpy array out of range, \<open>TypeError\<close> from
  comparing a number or an array with a \<open>str\<close>, \<open>ValueError\<close> from using an array of
  more than one truth value as the condition of an \<open>if\<close>.
\<close>

datatype error = IndexError | TypeError | ValueError

text \<open>
  A numpy \<open>float64\<close>, idealised: a finite value is a real number (no rounding, no
  overflow), \<open>Fin 0\<close> is \<open>+0.0\<close>, and the values that arithmetic on zero and infinity
  produces are explicit. numpy's default error state is assumed: a division by zero
  or an invalid operation on \<open>float64\<close> warns and returns \<open>inf\<close> or \<open>nan\<close>; it does not
  raise.
\<close>

datatype npfloat = Fin real | NegZero | PInf | NInf | NaN

fun np_isinf :: "npfloat \<Rightarrow> bool" where
  "np_isinf PInf = True"
| "np_isinf NInf = True"
| "np_isinf _ = False"

fun np_iszero :: "npfloat \<Rightarrow> bool" where
  "np_iszero (Fin x) = (x = 0)"
| "np_iszero NegZero = True"
| "np_iszero _ = False"

fun np_signbit :: "npfloat \<Rightarrow> bool" where
  "np_signbit (Fin x) = (x < 0)"
| "np_signbit NegZero = True"
| "np_signbit NInf = True"
| "np_signbit _ = False"

fun np_val :: "npfloat \<Rightarrow> real" where
  "np_val (Fin x) = x"
| "np_val _ = 0"

definition signed_zero :: "bool \<Rightarrow> npfloat" where
  "signed_zero neg = (if neg then NegZero else Fin 0)"

definition signed_inf :: "bool \<Rightarrow> npfloat" where
  "signed_inf neg = (if neg then NInf else PInf)"

text \<open>The operator \<open>/\<close> on \<open>float64\<close> (IEEE 754 division, without rounding).\<close>

definition np_truediv :: "npfloat \<Rightarrow> npfloat \<Rightarrow> npfloat" where
  "np_truediv a b =
     (if a = NaN \<or> b = NaN then NaN
      else if np_isinf a then
        (if np_isinf b then NaN else signed_inf (np_signbit a \<noteq> np_signbit b))
      else if np_isinf b then signed_zero (np_signbit a \<noteq> np_signbit b)
      else if np_iszero b then
        (if np_iszero a then NaN else signed_inf (np_signbit a \<noteq> np_signbit b))
      else if np_iszero a then signed_zero (np_signbit a \<noteq> np_signbit b)
      else Fin (np_val a / np_val b))"

text \<open>The operator \<open>+\<close> on \<open>float64\<close> (IEEE 754 addition, without rounding).\<close>

definition np_add :: "npfloat \<Rightarrow> npfloat \<Rightarrow> npfloat" where
  "np_add a b =
     (if a = NaN \<or> b = NaN then NaN
      else if np_isinf a then (if np_isinf b \<and> a \<noteq> b then NaN else a)
      else if np_isinf b then b
      else if a = NegZero \<and> b = NegZero then NegZero
      else Fin (np_val a + np_val b))"

text \<open>A Python \<open>int\<close> converted to \<open>float64\<close>.\<close>

definition of_pyint :: "int \<Rightarrow> npfloat" where
  "of_pyint k = Fin (real_of_int k)"

text \<open>\<open>np.log2\<close> of a Python \<open>int\<close>: \<open>-inf\<close> at 0, \<open>nan\<close> below.\<close>

definition np_log2 :: "int \<Rightarrow> npfloat" where
  "np_log2 n = (if 0 < n then Fin (log 2 (real_of_int n)) else if n = 0 then NInf else NaN)"

text \<open>
  \<open>np.mean\<close> of a one-dimensional array of \<open>float64\<close>: the sum of the elements
  (\<open>0.0\<close> for no element) divided by their number. The sum and the quotient are the
  exact ones; \<open>float64\<close> rounds both, so the program's mean can differ from this one
  in the last bits (the mean of \<open>[0.1, 0.1, 0.1]\<close> is \<open>0.10000000000000002\<close> there).
  Where a result depends on how an element compares with the mean, the theorems below
  are stated for every threshold, not for this value.
\<close>

definition np_sum :: "npfloat list \<Rightarrow> npfloat" where
  "np_sum xs = (case xs of [] \<Rightarrow> Fin 0 | x # r \<Rightarrow> foldl np_add x r)"

definition np_mean :: "npfloat list \<Rightarrow> npfloat" where
  "np_mean xs = np_truediv (np_sum xs) (of_pyint (int (length xs)))"

text \<open>
  \<open>np.median\<close> of a one-dimensional array of finite values: the middle element of the
  sorted array, or the mean of the two middle elements; \<open>nan\<close> for an empty array.
\<close>

definition np_median :: "real list \<Rightarrow> npfloat" where
  "np_median signal =
     (let n = length signal; s = sort signal
      in if n = 0 then NaN
         else if n mod 2 = 1 then Fin (s ! (n div 2))
         else np_mean [Fin (s ! (n div 2 - 1)), Fin (s ! (n div 2))])"

text \<open>\<open>v < t\<close> for an element \<open>v\<close> of the signal and a \<open>float64\<close> \<open>t\<close>.\<close>

fun np_less :: "real \<Rightarrow> npfloat \<Rightarrow> bool" where
  "np_less v (Fin t) = (v < t)"
| "np_less v NegZero = (v < 0)"
| "np_less v PInf = True"
| "np_less v NInf = False"
| "np_less v NaN = False"

text \<open>
  Indexing a one-dimensional numpy array with a Python \<open>int\<close>: a negative index counts
  from the end, an index out of range raises \<open>IndexError\<close>.
\<close>

definition np_getitem :: "'a list \<Rightarrow> int \<Rightarrow> error + 'a" where
  "np_getitem a i =
     (if 0 \<le> i \<and> i < int (length a) then Inr (a ! nat i)
      else if - int (length a) \<le> i \<and> i < 0 then Inr (a ! nat (int (length a) + i))
      else Inl IndexError)"

subsection \<open>The binarizer: \<open>_complexity_lempelziv_binarize\<close>\<close>

text \<open>
  The source's names start with an underscore, which an Isabelle name cannot:
  \<open>_complexity_lempelziv\<close> is \<open>priv_complexity_lempelziv\<close> here, and so on.

  The variable \<open>threshold\<close> holds the mode, a \<open>str\<close>, on entry. For the modes
  \<open>"median"\<close> and \<open>"mean"\<close> it is overwritten with a \<open>float64\<close>; for any other
  string it is left as it is.
\<close>

datatype threshold_value = Mode string | Level npfloat

definition resolve_threshold :: "real list \<Rightarrow> string \<Rightarrow> threshold_value" where
  "resolve_threshold signal threshold =
     (if threshold = ''median'' then Level (np_median signal)
      else if threshold = ''mean'' then Level (np_mean (map Fin signal))
      else Mode threshold)"

text \<open>\<open>value < threshold\<close>: comparing a number with a \<open>str\<close> raises \<open>TypeError\<close>.\<close>

fun value_less :: "real \<Rightarrow> threshold_value \<Rightarrow> error + bool" where
  "value_less v (Level t) = Inr (np_less v t)"
| "value_less v (Mode m) = Inl TypeError"

text \<open>
  The loop \<open>for index, value in enumerate(signal)\<close>, writing 0 or 1 at \<open>index\<close> of the
  copy \<open>p_seq\<close>; the list built here is that copy after \<open>astype(int)\<close>.
\<close>

fun binarize_loop :: "threshold_value \<Rightarrow> real list \<Rightarrow> error + int list" where
  "binarize_loop threshold [] = Inr []"
| "binarize_loop threshold (v # signal) =
     (case value_less v threshold of
        Inl e \<Rightarrow> Inl e
      | Inr b \<Rightarrow>
          (case binarize_loop threshold signal of
             Inl e \<Rightarrow> Inl e
           | Inr p_seq \<Rightarrow> Inr ((if b then 0 else 1) # p_seq)))"

definition priv_complexity_lempelziv_binarize :: "real list \<Rightarrow> string \<Rightarrow> error + int list" where
  "priv_complexity_lempelziv_binarize signal threshold =
     binarize_loop (resolve_threshold signal threshold) signal"

subsection \<open>The normalizer: \<open>_complexity_lempelziv_normalize\<close>\<close>

definition priv_complexity_lempelziv_normalize :: "int list \<Rightarrow> int \<Rightarrow> npfloat" where
  "priv_complexity_lempelziv_normalize sequence complexity =
     (let n = int (length sequence);
          upper_bound = np_truediv (of_pyint n) (np_log2 n)
      in np_truediv (of_pyint complexity) upper_bound)"

subsection \<open>The scanner: \<open>_complexity_lempelziv\<close>\<close>

record scan_state =
  complexity :: int
  pointer :: int
  current_prefix_len :: int
  current_substring_len :: int
  final_substring_len :: int

definition init_state :: scan_state where
  "init_state =
     \<lparr>complexity = 1, pointer = 0, current_prefix_len = 1,
      current_substring_len = 1, final_substring_len = 1\<rparr>"

definition loop_cond :: "int list \<Rightarrow> scan_state \<Rightarrow> bool" where
  "loop_cond p_seq s =
     (current_prefix_len s + current_substring_len s \<le> int (length p_seq))"

text \<open>One pass through the body of the \<open>while\<close> loop.\<close>

definition loop_body :: "int list \<Rightarrow> scan_state \<Rightarrow> error + scan_state" where
  "loop_body p_seq s =
     (case np_getitem p_seq (pointer s + current_substring_len s - 1) of
        Inl e \<Rightarrow> Inl e
      | Inr a \<Rightarrow>
          (case np_getitem p_seq (current_prefix_len s + current_substring_len s - 1) of
             Inl e \<Rightarrow> Inl e
           | Inr b \<Rightarrow>
               if a = b then Inr (s\<lparr>current_substring_len := current_substring_len s + 1\<rparr>)
               else
                 let s1 = s\<lparr>final_substring_len :=
                             max (current_substring_len s) (final_substring_len s)\<rparr>;
                     s2 = s1\<lparr>pointer := pointer s1 + 1\<rparr>
                 in if pointer s2 = current_prefix_len s2
                    then Inr (s2\<lparr>complexity := complexity s2 + 1,
                                 current_prefix_len :=
                                   current_prefix_len s2 + final_substring_len s2,
                                 current_substring_len := 1,
                                 pointer := 0,
                                 final_substring_len := 1\<rparr>)
                    else Inr (s2\<lparr>current_substring_len := 1\<rparr>)))"

text \<open>
  The \<open>while\<close> loop. \<open>None\<close> is a loop that never ends, \<open>Some (Inl e)\<close> an exception
  that leaves it, \<open>Some (Inr s)\<close> the state at its exit.
\<close>

partial_function (option) scan_loop :: "int list \<Rightarrow> scan_state \<Rightarrow> (error + scan_state) option" where
  "scan_loop p_seq s =
     (if loop_cond p_seq s
      then (case loop_body p_seq s of
              Inl e \<Rightarrow> Some (Inl e)
            | Inr s' \<Rightarrow> scan_loop p_seq s')
      else Some (Inr s))"

text \<open>
  The state at the \<open>k\<close>-th evaluation of the loop condition (counting from 0), when
  the loop gets that far.
\<close>

fun loop_head :: "int list \<Rightarrow> nat \<Rightarrow> scan_state option" where
  "loop_head p_seq 0 = Some init_state"
| "loop_head p_seq (Suc k) =
     (case loop_head p_seq k of
        None \<Rightarrow> None
      | Some s \<Rightarrow>
          if loop_cond p_seq s
          then (case loop_body p_seq s of Inl e \<Rightarrow> None | Inr s' \<Rightarrow> Some s')
          else None)"

text \<open>
  Lines 96 to 121 of \<open>_complexity_lempelziv\<close>: the raw complexity of a binary
  sequence, before the optional normalization.
\<close>

definition raw_complexity :: "int list \<Rightarrow> (error + int) option" where
  "raw_complexity p_seq =
     (case scan_loop p_seq init_state of
        None \<Rightarrow> None
      | Some (Inl e) \<Rightarrow> Some (Inl e)
      | Some (Inr s) \<Rightarrow>
          Some (Inr (if current_substring_len s \<noteq> 1 then complexity s + 1
                     else complexity s)))"

text \<open>What \<open>_complexity_lempelziv\<close> returns: a Python \<open>int\<close>, or a \<open>float64\<close>.\<close>

datatype lzc = IntV int | FloatV npfloat

definition priv_complexity_lempelziv :: "real list \<Rightarrow> string \<Rightarrow> bool \<Rightarrow> (error + lzc) option" where
  "priv_complexity_lempelziv signal threshold normalize_flag =
     (case priv_complexity_lempelziv_binarize signal threshold of
        Inl e \<Rightarrow> Some (Inl e)
      | Inr p_seq \<Rightarrow>
          (case raw_complexity p_seq of
             None \<Rightarrow> None
           | Some (Inl e) \<Rightarrow> Some (Inl e)
           | Some (Inr c) \<Rightarrow>
               Some (Inr (if normalize_flag
                          then FloatV (priv_complexity_lempelziv_normalize p_seq c)
                          else IntV c))))"

subsection \<open>The entry point: \<open>complexity_lempelziv\<close>\<close>

text \<open>
  A signal is one-dimensional (\<open>signal.ndim = 1\<close>) or has more dimensions. The frame
  that \<open>_sanitize_multichannel\<close> returns is a list of named columns; that function
  is in \<open>utils\<close> and is a parameter here.
\<close>

datatype 'm signal = OneDim "real list" | MultiDim 'm

type_synonym frame = "(string \<times> real list) list"

text \<open>
  \<open>signal[colname]\<close>: the columns of that name, in the order of the frame. One column
  is a \<open>Series\<close>; a name that several columns carry gives a \<open>DataFrame\<close> of them.
\<close>

definition frame_getitem :: "frame \<Rightarrow> string \<Rightarrow> real list list" where
  "frame_getitem fr colname = map snd (filter (\<lambda>col. fst col = colname) fr)"

text \<open>The values of the dictionary \<open>parameters\<close>.\<close>

datatype pyval = PStr string | PBool bool | PList "lzc list"

definition lzc_float :: "lzc \<Rightarrow> npfloat" where
  "lzc_float v = (case v of IntV k \<Rightarrow> of_pyint k | FloatV f \<Rightarrow> f)"

text \<open>
  \<open>np.array(signal[colname])\<close> passed to \<open>_complexity_lempelziv\<close>. One column is a
  one-dimensional array. Several columns are a two-dimensional array, whose elements
  under \<open>enumerate\<close> are its rows: with no row the binarizer's loop does nothing and
  the call goes as for an empty sequence; with a row, \<open>value < threshold\<close> is an array
  of several truth values and the \<open>if\<close> raises \<open>ValueError\<close>, or, when the mode is
  an unknown string, the comparison itself raises \<open>TypeError\<close>.
\<close>

definition channel_lzc :: "real list list \<Rightarrow> string \<Rightarrow> bool \<Rightarrow> (error + lzc) option" where
  "channel_lzc columns threshold normalize_flag =
     (case columns of
        [channel] \<Rightarrow> priv_complexity_lempelziv channel threshold normalize_flag
      | _ \<Rightarrow>
          if list_all (\<lambda>channel. channel = []) columns
          then priv_complexity_lempelziv [] threshold normalize_flag
          else if threshold = ''median'' \<or> threshold = ''mean'' then Some (Inl ValueError)
          else Some (Inl TypeError))"

text \<open>The loop over the column names, appending to \<open>lzc_values\<close>.\<close>

fun channels_loop ::
  "frame \<Rightarrow> string list \<Rightarrow> string \<Rightarrow> bool \<Rightarrow> lzc list \<Rightarrow> (error + lzc list) option" where
  "channels_loop fr [] threshold normalize_flag lzc_values = Some (Inr lzc_values)"
| "channels_loop fr (colname # colnames) threshold normalize_flag lzc_values =
     (case channel_lzc (frame_getitem fr colname) threshold normalize_flag of
        None \<Rightarrow> None
      | Some (Inl e) \<Rightarrow> Some (Inl e)
      | Some (Inr lzc) \<Rightarrow> channels_loop fr colnames threshold normalize_flag (lzc_values @ [lzc]))"

definition complexity_lempelziv ::
  "('m \<Rightarrow> frame) \<Rightarrow> 'm signal \<Rightarrow> string \<Rightarrow> bool \<Rightarrow> (error + lzc \<times> (string \<rightharpoonup> pyval)) option" where
  "complexity_lempelziv sanitize_multichannel signal threshold normalize_flag =
     (let parameters = [''threshold'' \<mapsto> PStr threshold, ''normalize'' \<mapsto> PBool normalize_flag]
      in case signal of
           MultiDim m \<Rightarrow>
             (let fr = sanitize_multichannel m
              in case channels_loop fr (map fst fr) threshold normalize_flag [] of
                   None \<Rightarrow> None
                 | Some (Inl e) \<Rightarrow> Some (Inl e)
                 | Some (Inr lzc_values) \<Rightarrow>
                     Some (Inr (FloatV (np_mean (map lzc_float lzc_values)),
                                parameters(''values'' \<mapsto> PList lzc_values))))
         | OneDim xs \<Rightarrow>
             (case priv_complexity_lempelziv xs threshold normalize_flag of
                None \<Rightarrow> None
              | Some (Inl e) \<Rightarrow> Some (Inl e)
              | Some (Inr out) \<Rightarrow> Some (Inr (out, parameters))))"

subsection \<open>The scan as the specification words it\<close>

text \<open>
  Section 4.2 of the specification, word for word: the state, the loop and the step
  after the loop, over natural numbers and with the loop as a \<open>while\<close> combinator.
\<close>

record ScanState =
  spec_complexity :: nat
  spec_pointer :: nat
  prefixLength :: nat
  substringLength :: nat
  finalSubstringLength :: nat

definition spec_init :: ScanState where
  "spec_init =
     \<lparr>spec_complexity = 1, spec_pointer = 0, prefixLength = 1,
      substringLength = 1, finalSubstringLength = 1\<rparr>"

definition spec_cond :: "int list \<Rightarrow> ScanState \<Rightarrow> bool" where
  "spec_cond B t = (prefixLength t + substringLength t \<le> length B)"

definition spec_step :: "int list \<Rightarrow> ScanState \<Rightarrow> ScanState" where
  "spec_step B t =
     (if B ! (spec_pointer t + substringLength t - 1) = B ! (prefixLength t + substringLength t - 1)
      then t\<lparr>substringLength := substringLength t + 1\<rparr>
      else
        let fin = max (substringLength t) (finalSubstringLength t);
            p = spec_pointer t + 1
        in if p = prefixLength t
           then \<lparr>spec_complexity = spec_complexity t + 1, spec_pointer = 0,
                 prefixLength = prefixLength t + fin,
                 substringLength = 1, finalSubstringLength = 1\<rparr>
           else \<lparr>spec_complexity = spec_complexity t, spec_pointer = p,
                 prefixLength = prefixLength t,
                 substringLength = 1, finalSubstringLength = fin\<rparr>)"

definition spec_scan :: "int list \<Rightarrow> nat option" where
  "spec_scan B =
     (case while_option (spec_cond B) (spec_step B) spec_init of
        None \<Rightarrow> None
      | Some t \<Rightarrow>
          Some (if substringLength t \<noteq> 1 then spec_complexity t + 1 else spec_complexity t))"

subsection \<open>Invariant, abstraction and variant of the loop\<close>

text \<open>
  What holds of the state whenever the loop condition is evaluated, the state of the
  specification's scan that a state of the code stands for, and the triple that gets
  smaller (lexicographically) with every pass through the loop body.
\<close>

declare scan_loop.simps [code]

definition scan_inv :: "scan_state \<Rightarrow> bool" where
  "scan_inv s =
     (0 \<le> pointer s \<and> pointer s < current_prefix_len s \<and> 1 \<le> current_substring_len s \<and>
      1 \<le> final_substring_len s \<and> 1 \<le> complexity s)"

definition to_spec :: "scan_state \<Rightarrow> ScanState" where
  "to_spec s =
     \<lparr>spec_complexity = nat (complexity s), spec_pointer = nat (pointer s),
      prefixLength = nat (current_prefix_len s),
      substringLength = nat (current_substring_len s),
      finalSubstringLength = nat (final_substring_len s)\<rparr>"

definition variant :: "int list \<Rightarrow> scan_state \<Rightarrow> nat \<times> nat \<times> nat" where
  "variant p_seq s =
     (nat (int (length p_seq) - current_prefix_len s),
      nat (current_prefix_len s - pointer s),
      nat (int (length p_seq) - current_substring_len s))"

definition variant_less :: "((nat \<times> nat \<times> nat) \<times> (nat \<times> nat \<times> nat)) set" where
  "variant_less = less_than <*lex*> less_than <*lex*> less_than"


section \<open>The loop: invariant, termination and agreement with the specification\<close>

lemma wf_variant: "wf (inv_image variant_less (variant p_seq))"
  unfolding variant_less_def by (intro wf_inv_image wf_lex_prod wf_less_than)

lemma init_inv: "scan_inv init_state"
  by (simp add: scan_inv_def init_state_def)

lemma cond_spec: "scan_inv s \<Longrightarrow> loop_cond p_seq s = spec_cond p_seq (to_spec s)"
  by (auto simp add: scan_inv_def loop_cond_def spec_cond_def to_spec_def)

lemma getitem_in_range: "0 \<le> i \<Longrightarrow> i < int (length a) \<Longrightarrow> np_getitem a i = Inr (a ! nat i)"
  by (simp add: np_getitem_def)

lemma body_match:
  assumes "scan_inv s" and "loop_cond p_seq s"
    and "p_seq ! nat (pointer s + current_substring_len s - 1) =
         p_seq ! nat (current_prefix_len s + current_substring_len s - 1)"
  shows "loop_body p_seq s = Inr (s\<lparr>current_substring_len := current_substring_len s + 1\<rparr>)"
proof -
  from assms(1,2) have "np_getitem p_seq (pointer s + current_substring_len s - 1) =
      Inr (p_seq ! nat (pointer s + current_substring_len s - 1))"
    by (intro getitem_in_range) (simp_all add: scan_inv_def loop_cond_def)
  moreover from assms(1,2) have "np_getitem p_seq (current_prefix_len s + current_substring_len s - 1) =
      Inr (p_seq ! nat (current_prefix_len s + current_substring_len s - 1))"
    by (intro getitem_in_range) (simp_all add: scan_inv_def loop_cond_def)
  ultimately show ?thesis using assms(3) by (simp add: loop_body_def)
qed

lemma body_mismatch:
  assumes "scan_inv s" and "loop_cond p_seq s"
    and "p_seq ! nat (pointer s + current_substring_len s - 1) \<noteq>
         p_seq ! nat (current_prefix_len s + current_substring_len s - 1)"
  shows "loop_body p_seq s =
    Inr (if pointer s + 1 = current_prefix_len s
         then s\<lparr>final_substring_len := 1, pointer := 0, complexity := complexity s + 1,
                current_prefix_len := current_prefix_len s +
                  max (current_substring_len s) (final_substring_len s),
                current_substring_len := 1\<rparr>
         else s\<lparr>final_substring_len := max (current_substring_len s) (final_substring_len s),
                pointer := pointer s + 1, current_substring_len := 1\<rparr>)"
proof -
  from assms(1,2) have "np_getitem p_seq (pointer s + current_substring_len s - 1) =
      Inr (p_seq ! nat (pointer s + current_substring_len s - 1))"
    by (intro getitem_in_range) (simp_all add: scan_inv_def loop_cond_def)
  moreover from assms(1,2) have "np_getitem p_seq (current_prefix_len s + current_substring_len s - 1) =
      Inr (p_seq ! nat (current_prefix_len s + current_substring_len s - 1))"
    by (intro getitem_in_range) (simp_all add: scan_inv_def loop_cond_def)
  ultimately show ?thesis using assms(3) by (simp add: loop_body_def Let_def)
qed

lemma spec_index:
  assumes "scan_inv s"
  shows "spec_pointer (to_spec s) + substringLength (to_spec s) - 1 =
           nat (pointer s + current_substring_len s - 1)"
    and "prefixLength (to_spec s) + substringLength (to_spec s) - 1 =
           nat (current_prefix_len s + current_substring_len s - 1)"
  using assms unfolding scan_inv_def to_spec_def by (simp_all, arith+)

lemma body_ok:
  assumes inv: "scan_inv s" and c: "loop_cond p_seq s"
  shows "\<exists>s'. loop_body p_seq s = Inr s' \<and> scan_inv s' \<and>
              (variant p_seq s', variant p_seq s) \<in> variant_less \<and>
              to_spec s' = spec_step p_seq (to_spec s)"
proof (cases "p_seq ! nat (pointer s + current_substring_len s - 1) =
         p_seq ! nat (current_prefix_len s + current_substring_len s - 1)")
  case True
  let ?s' = "s\<lparr>current_substring_len := current_substring_len s + 1\<rparr>"
  have "loop_body p_seq s = Inr ?s'" using inv c True by (rule body_match)
  moreover have "scan_inv ?s'" using inv by (simp add: scan_inv_def)
  moreover have "(variant p_seq ?s', variant p_seq s) \<in> variant_less"
    using inv c by (simp add: variant_def variant_less_def scan_inv_def loop_cond_def)
  moreover have "to_spec ?s' = spec_step p_seq (to_spec s)"
    unfolding spec_step_def spec_index [OF inv] using True inv
    by (simp add: to_spec_def scan_inv_def nat_add_distrib)
  ultimately show ?thesis by blast
next
  case False
  note b = body_mismatch [OF inv c False]
  show ?thesis
  proof (cases "pointer s + 1 = current_prefix_len s")
    case True
    let ?s' = "s\<lparr>final_substring_len := 1, pointer := 0, complexity := complexity s + 1,
                current_prefix_len := current_prefix_len s +
                  max (current_substring_len s) (final_substring_len s),
                current_substring_len := 1\<rparr>"
    have "loop_body p_seq s = Inr ?s'" using b True by simp
    moreover have "scan_inv ?s'" using inv by (simp add: scan_inv_def max_def)
    moreover have "(variant p_seq ?s', variant p_seq s) \<in> variant_less"
      using inv c by (simp add: variant_def variant_less_def scan_inv_def loop_cond_def max_def)
    moreover have "to_spec ?s' = spec_step p_seq (to_spec s)"
      unfolding spec_step_def spec_index [OF inv] using False True inv
      by (simp add: to_spec_def scan_inv_def nat_add_distrib Let_def max_def) arith?
    ultimately show ?thesis by blast
  next
    case ne: False
    let ?s' = "s\<lparr>final_substring_len := max (current_substring_len s) (final_substring_len s),
                pointer := pointer s + 1, current_substring_len := 1\<rparr>"
    have "loop_body p_seq s = Inr ?s'" using b ne by simp
    moreover have "scan_inv ?s'" using inv ne by (simp add: scan_inv_def max_def)
    moreover have "(variant p_seq ?s', variant p_seq s) \<in> variant_less"
      using inv c ne by (simp add: variant_def variant_less_def scan_inv_def loop_cond_def)
    moreover have "to_spec ?s' = spec_step p_seq (to_spec s)"
      unfolding spec_step_def spec_index [OF inv] using False ne inv
      by (simp add: to_spec_def scan_inv_def nat_add_distrib Let_def max_def) arith?
    ultimately show ?thesis by blast
  qed
qed


lemma loop_total:
  "scan_inv s \<Longrightarrow>
   \<exists>s'. scan_loop p_seq s = Some (Inr s') \<and> scan_inv s' \<and> \<not> loop_cond p_seq s' \<and>
        while_option (spec_cond p_seq) (spec_step p_seq) (to_spec s) = Some (to_spec s')"
proof (induction s rule: wf_induct_rule [OF wf_variant [of p_seq]])
  case (1 s)
  show ?case
  proof (cases "loop_cond p_seq s")
    case False
    with "1.prems" have "\<not> spec_cond p_seq (to_spec s)" by (simp add: cond_spec)
    then have "while_option (spec_cond p_seq) (spec_step p_seq) (to_spec s) = Some (to_spec s)"
      by (subst while_option_unfold) simp
    moreover from False have "scan_loop p_seq s = Some (Inr s)"
      by (subst scan_loop.simps) simp
    ultimately show ?thesis using False "1.prems" by blast
  next
    case True
    from body_ok [OF "1.prems" True] obtain s1 where
      b: "loop_body p_seq s = Inr s1" and i1: "scan_inv s1" and
      v: "(variant p_seq s1, variant p_seq s) \<in> variant_less" and
      sp: "to_spec s1 = spec_step p_seq (to_spec s)" by blast
    from v have "(s1, s) \<in> inv_image variant_less (variant p_seq)" by simp
    from "1.IH" [OF this i1] obtain s' where
      l: "scan_loop p_seq s1 = Some (Inr s')" and i': "scan_inv s'" and
      c': "\<not> loop_cond p_seq s'" and
      w: "while_option (spec_cond p_seq) (spec_step p_seq) (to_spec s1) = Some (to_spec s')"
      by blast
    from True b l have "scan_loop p_seq s = Some (Inr s')"
      by (subst scan_loop.simps) simp
    moreover from True "1.prems" have "spec_cond p_seq (to_spec s)" by (simp add: cond_spec)
    then have "while_option (spec_cond p_seq) (spec_step p_seq) (to_spec s) = Some (to_spec s')"
      using w sp by (subst while_option_unfold) simp
    ultimately show ?thesis using i' c' by blast
  qed
qed

lemma raw_total:
  "\<exists>c. raw_complexity p_seq = Some (Inr c) \<and> 1 \<le> c \<and> spec_scan p_seq = Some (nat c)"
proof -
  from loop_total [OF init_inv, of p_seq] obtain s' where
    l: "scan_loop p_seq init_state = Some (Inr s')" and i': "scan_inv s'" and
    w: "while_option (spec_cond p_seq) (spec_step p_seq) (to_spec init_state) = Some (to_spec s')"
    by blast
  have "to_spec init_state = spec_init" by (simp add: to_spec_def init_state_def spec_init_def)
  with w have "spec_scan p_seq = Some (if substringLength (to_spec s') \<noteq> 1 then spec_complexity (to_spec s') + 1 else spec_complexity (to_spec s'))"
    by (simp add: spec_scan_def)
  with l i' show ?thesis
    by (auto simp add: raw_complexity_def scan_inv_def to_spec_def nat_add_distrib)
qed

section \<open>Claims about the scanner\<close>

text \<open>
  C10: the \<open>while\<close> loop of the scanner ends for every sequence, of any length,
  the empty one too: started in the initial state it leaves a state in which the loop
  condition is false, no index is out of range on the way, and the raw complexity is
  read off that state. The order in which the loop descends is \<open>variant\<close>: a match
  makes the substring longer, a mismatch moves the pointer up to the prefix length,
  and at the prefix length the prefix grows (lemma \<open>body_ok\<close>).
\<close>

theorem scan_terminates:
  "\<exists>s. scan_loop p_seq init_state = Some (Inr s) \<and> \<not> loop_cond p_seq s \<and>
       raw_complexity p_seq =
         Some (Inr (if current_substring_len s \<noteq> 1 then complexity s + 1 else complexity s))"
proof -
  from loop_total [OF init_inv, of p_seq] obtain s where
    "scan_loop p_seq init_state = Some (Inr s)" and "\<not> loop_cond p_seq s" by blast
  then show ?thesis by (auto simp add: raw_complexity_def)
qed

text \<open>
  C1: for every sequence of length at least 1, the scanner returns a raw complexity,
  that number is the one the scan of section 4.2 of the specification computes
  (\<open>spec_scan\<close>: the initial state, the loop with its match and mismatch steps, and
  the increment after the loop when the substring length is not 1), and it is at
  least 1.
\<close>

theorem scan_refines_spec:
  "p_seq \<noteq> [] \<Longrightarrow>
   \<exists>c. raw_complexity p_seq = Some (Inr c) \<and> spec_scan p_seq = Some (nat c) \<and> 1 \<le> c"
  using raw_total [of p_seq] by blast

theorem scan_refines_spec_witness:
  "[0, 1, 0, 1, 0, 1, 0, 1] \<noteq> ([] :: int list) \<and>
   raw_complexity [0, 1, 0, 1, 0, 1, 0, 1] = Some (Inr 3) \<and>
   spec_scan [0, 1, 0, 1, 0, 1, 0, 1] = Some 3"
proof -
  have r: "raw_complexity [0, 1, 0, 1, 0, 1, 0, 1] = Some (Inr 3)" by code_simp
  from scan_refines_spec [of "[0, 1, 0, 1, 0, 1, 0, 1]"] obtain c where
    "raw_complexity [0, 1, 0, 1, 0, 1, 0, 1] = Some (Inr c)"
    "spec_scan [0, 1, 0, 1, 0, 1, 0, 1] = Some (nat c)" by blast
  with r show ?thesis by simp
qed

lemma loop_head_inv: "loop_head p_seq k = Some s \<Longrightarrow> scan_inv s"
proof (induction k arbitrary: s)
  case 0
  then show ?case by (simp add: init_inv)
next
  case (Suc k)
  from Suc.prems obtain t where t: "loop_head p_seq k = Some t" and c: "loop_cond p_seq t"
    and b: "loop_body p_seq t = Inr s"
    by (auto split: option.splits if_splits sum.splits)
  from Suc.IH [OF t] have "scan_inv t" .
  from body_ok [OF this c] b show ?case by auto
qed

text \<open>
  C7: at every evaluation of the loop condition, for any sequence, the pointer is
  below the prefix length (and not negative). The pointer equals the prefix length
  only inside the mismatch branch of \<open>loop_body\<close>, which sets it back to 0 before
  the condition is evaluated again.
\<close>

theorem pointer_below_prefix:
  "loop_head p_seq k = Some s \<Longrightarrow> 0 \<le> pointer s \<and> pointer s < current_prefix_len s"
  using loop_head_inv [of p_seq k s] by (simp add: scan_inv_def)

theorem pointer_below_prefix_witness:
  "loop_head [0, 1, 1, 0] 2 =
     Some \<lparr>complexity = 2, pointer = 1, current_prefix_len = 2,
           current_substring_len = 1, final_substring_len = 1\<rparr> \<and>
   pointer \<lparr>complexity = 2, pointer = 1, current_prefix_len = 2,
           current_substring_len = 1, final_substring_len = 1\<rparr>
     < current_prefix_len \<lparr>complexity = 2, pointer = 1, current_prefix_len = 2,
           current_substring_len = 1, final_substring_len = 1\<rparr>"
proof -
  have h: "loop_head [0, 1, 1, 0] 2 =
     Some \<lparr>complexity = 2, pointer = 1, current_prefix_len = 2,
           current_substring_len = 1, final_substring_len = 1\<rparr>"
    by code_simp
  from pointer_below_prefix [OF h] h show ?thesis by blast
qed

text \<open>
  C5, as the specification states it, fails: an empty sequence raises nothing. The
  scanner returns the raw complexity 1.
\<close>

theorem empty_sequence_counterexample:
  "raw_complexity [] = Some (Inr 1) \<and>
   priv_complexity_lempelziv [] ''median'' False = Some (Inr (IntV 1))"
  by (simp add: raw_complexity_def scan_loop.simps loop_cond_def init_state_def
      priv_complexity_lempelziv_def priv_complexity_lempelziv_binarize_def)

text \<open>
  C5, amended: for an empty sequence the loop condition is false at its first
  evaluation, so the loop body is never entered, and no error is raised: the raw
  complexity is 1 whatever the threshold mode, and with normalization the result is
  \<open>1 / (0 / log2(0)) = 1 / -0.0 = -inf\<close>.
\<close>

theorem empty_sequence_returns:
  "loop_head [] 1 = None \<and> raw_complexity [] = Some (Inr 1) \<and>
   priv_complexity_lempelziv [] threshold False = Some (Inr (IntV 1)) \<and>
   priv_complexity_lempelziv [] threshold True = Some (Inr (FloatV NInf))"
  by (simp add: raw_complexity_def scan_loop.simps loop_cond_def init_state_def
      priv_complexity_lempelziv_def priv_complexity_lempelziv_binarize_def
      priv_complexity_lempelziv_normalize_def np_log2_def np_truediv_def of_pyint_def
      signed_zero_def signed_inf_def)

section \<open>Claims about the binarizer and the normalizer\<close>

lemma np_truediv_Fin: "0 < y \<Longrightarrow> np_truediv (Fin x) (Fin y) = Fin (x / y)"
  by (simp add: np_truediv_def signed_zero_def)

lemma foldl_np_add_Fin: "foldl np_add (Fin a) (map Fin xs) = Fin (a + sum_list xs)"
  by (induction xs arbitrary: a) (simp_all add: np_add_def add.assoc)

lemma np_sum_Fin: "np_sum (map Fin xs) = Fin (sum_list xs)"
  by (cases xs) (simp_all add: np_sum_def foldl_np_add_Fin)

lemma np_mean_Fin: "xs \<noteq> [] \<Longrightarrow> np_mean (map Fin xs) = Fin (sum_list xs / real (length xs))"
  by (simp add: np_mean_def np_sum_Fin of_pyint_def np_truediv_Fin)

lemma np_mean_pair: "np_mean [Fin x, Fin y] = Fin ((x + y) / 2)"
  using np_mean_Fin [of "[x, y]"] by simp

lemma np_median_Fin:
  assumes "signal \<noteq> []"
  shows "\<exists>a. np_median signal = Fin a"
proof -
  have "np_median signal =
      (if length signal mod 2 = 1 then Fin (sort signal ! (length signal div 2))
       else Fin ((sort signal ! (length signal div 2 - 1) +
                  sort signal ! (length signal div 2)) / 2))"
    using assms by (simp add: np_median_def Let_def np_mean_pair)
  then show ?thesis by metis
qed

lemma binarize_loop_Level:
  "binarize_loop (Level t) signal = Inr (map (\<lambda>v. if np_less v t then 0 else 1) signal)"
  by (induction signal) simp_all

lemma binarize_loop_Mode: "signal \<noteq> [] \<Longrightarrow> binarize_loop (Mode m) signal = Inl TypeError"
  by (cases signal) simp_all

lemma binarize_median:
  "priv_complexity_lempelziv_binarize signal ''median'' =
     Inr (map (\<lambda>v. if np_less v (np_median signal) then 0 else 1) signal)"
  by (simp add: priv_complexity_lempelziv_binarize_def resolve_threshold_def binarize_loop_Level)

lemma binarize_mean:
  "priv_complexity_lempelziv_binarize signal ''mean'' =
     Inr (map (\<lambda>v. if np_less v (np_mean (map Fin signal)) then 0 else 1) signal)"
  by (simp add: priv_complexity_lempelziv_binarize_def resolve_threshold_def binarize_loop_Level)

lemma binarize_other:
  "signal \<noteq> [] \<Longrightarrow> threshold \<noteq> ''median'' \<Longrightarrow> threshold \<noteq> ''mean'' \<Longrightarrow>
   priv_complexity_lempelziv_binarize signal threshold = Inl TypeError"
  by (simp add: priv_complexity_lempelziv_binarize_def resolve_threshold_def binarize_loop_Mode)

text \<open>
  C9, as the specification states it, fails: the sequence \<open>[1, 1, 4, 5]\<close> has median
  2.5 and mean 2.75, which differ, and the same binarized sequence under both modes.
\<close>

theorem mean_median_same_counterexample:
  "np_median [1, 1, 4, 5] = Fin (5 / 2) \<and> np_mean (map Fin [1, 1, 4, 5]) = Fin (11 / 4) \<and>
   priv_complexity_lempelziv_binarize [1, 1, 4, 5] ''median'' = Inr [0, 0, 1, 1] \<and>
   priv_complexity_lempelziv_binarize [1, 1, 4, 5] ''mean'' = Inr [0, 0, 1, 1]"
proof -
  have a: "np_median [1, 1, 4, 5] = Fin (5 / 2)"
    by (simp add: np_median_def np_mean_pair)
  have b: "np_mean (map Fin [1, 1, 4, 5]) = Fin (11 / 4)"
    using np_mean_Fin [of "[1, 1, 4, 5]"] by simp
  show ?thesis by (simp add: binarize_median binarize_mean a b del: list.map) (simp add: a b)
qed

text \<open>
  C9, amended: for a sequence with median \<open>a\<close> and mean \<open>b\<close>, the modes \<open>"median"\<close>
  and \<open>"mean"\<close> give the same binarized sequence exactly when no element \<open>v\<close> of the
  sequence has \<open>min a b \<le> v < max a b\<close>. So equal thresholds give equal sequences, and
  different thresholds give different sequences only when an element lies between
  them.
\<close>

theorem mean_median_differ_iff:
  assumes "np_median signal = Fin a" and "np_mean (map Fin signal) = Fin b"
  shows "(priv_complexity_lempelziv_binarize signal ''median'' =
          priv_complexity_lempelziv_binarize signal ''mean'') =
         (\<not> (\<exists>v \<in> set signal. min a b \<le> v \<and> v < max a b))"
proof -
  have "(priv_complexity_lempelziv_binarize signal ''median'' =
          priv_complexity_lempelziv_binarize signal ''mean'') =
        (\<forall>v \<in> set signal. (v < a) = (v < b))"
    by (auto simp add: binarize_median binarize_mean assms)
  also have "\<dots> = (\<not> (\<exists>v \<in> set signal. min a b \<le> v \<and> v < max a b))"
    by (auto simp add: min_def max_def)
  finally show ?thesis .
qed

theorem mean_median_differ_iff_witness:
  "np_median [1, 1, 4, 5] = Fin (5 / 2) \<and> np_mean (map Fin [1, 1, 4, 5]) = Fin (11 / 4) \<and>
   \<not> (\<exists>v \<in> set [1, 1, 4, 5 :: real]. min (5 / 2) (11 / 4) \<le> v \<and> v < max (5 / 2) (11 / 4)) \<and>
   priv_complexity_lempelziv_binarize [1, 1, 4, 5] ''median'' =
     priv_complexity_lempelziv_binarize [1, 1, 4, 5] ''mean''"
proof -
  have a: "np_median [1, 1, 4, 5] = Fin (5 / 2)"
    by (simp add: np_median_def np_mean_pair)
  have b: "np_mean (map Fin [1, 1, 4, 5]) = Fin (11 / 4)"
    using np_mean_Fin [of "[1, 1, 4, 5]"] by simp
  have n: "\<not> (\<exists>v \<in> set [1, 1, 4, 5 :: real]. min (5 / 2) (11 / 4) \<le> v \<and> v < max (5 / 2) (11 / 4))"
    by simp
  from mean_median_differ_iff [OF a b] n a b show ?thesis by blast
qed

lemma log2_8: "log 2 8 = 3"
proof -
  have "log 2 ((2 :: real) ^ 3) = real 3" by (rule log_pow_cancel) simp_all
  then show ?thesis by simp
qed

lemma normalize_long:
  assumes "1 < length sequence"
  shows "priv_complexity_lempelziv_normalize sequence c =
     Fin (real_of_int c / (real (length sequence) / log 2 (real (length sequence))))"
proof -
  from assms have z: "sequence \<noteq> []" by (cases sequence) simp_all
  have p: "1 < real (length sequence)" using assms by simp
  have "log 2 1 < log 2 (real (length sequence))"
    using p z by (subst log_less_cancel_iff) simp_all
  then have l: "0 < log 2 (real (length sequence))" by simp
  have u: "0 < real (length sequence) / log 2 (real (length sequence))"
    using l z by simp
  show ?thesis using z l u
    by (simp add: priv_complexity_lempelziv_normalize_def np_log2_def of_pyint_def
        np_truediv_Fin Let_def)
qed

lemma normalize_one:
  "length sequence = 1 \<Longrightarrow> 0 < c \<Longrightarrow> priv_complexity_lempelziv_normalize sequence c = Fin 0"
  by (simp add: priv_complexity_lempelziv_normalize_def np_log2_def of_pyint_def
      np_truediv_def signed_zero_def signed_inf_def)

lemma raw_single: "raw_complexity [x] = Some (Inr 1)"
  by (simp add: raw_complexity_def scan_loop.simps loop_cond_def init_state_def)

lemma single_normalized:
  assumes "threshold = ''median'' \<or> threshold = ''mean''"
  shows "priv_complexity_lempelziv [v] threshold True = Some (Inr (FloatV (Fin 0)))"
proof -
  have "priv_complexity_lempelziv_binarize [v] threshold = Inr [1]"
    using assms np_mean_Fin [of "[v]"]
    by (auto simp add: binarize_median binarize_mean np_median_def)
  then show ?thesis
    by (simp add: priv_complexity_lempelziv_def raw_single normalize_one)
qed

text \<open>
  C3, as the specification states it, fails: a sequence of length 1 with normalization
  raises nothing and returns the number 0.0 (\<open>log2(1) = 0.0\<close>, the upper bound
  \<open>1 / 0.0\<close> is \<open>inf\<close>, and \<open>1 / inf = 0.0\<close>).
\<close>

theorem length_one_counterexample:
  "priv_complexity_lempelziv [5] ''median'' True = Some (Inr (FloatV (Fin 0)))"
  by (rule single_normalized) simp

text \<open>
  C3, amended: for a sequence of length \<open>n > 1\<close> the normalizer returns
  \<open>complexity / (n / log2(n))\<close>. For \<open>n = 1\<close> it raises no error: it returns 0.0 for
  a positive complexity, and so does \<open>_complexity_lempelziv\<close> with normalization on
  any sequence of length 1, in the modes \<open>"median"\<close> and \<open>"mean"\<close>.
\<close>

theorem normalize_values:
  "(1 < length sequence \<longrightarrow>
      priv_complexity_lempelziv_normalize sequence c =
        Fin (real_of_int c / (real (length sequence) / log 2 (real (length sequence))))) \<and>
   (length sequence = 1 \<and> 0 < c \<longrightarrow> priv_complexity_lempelziv_normalize sequence c = Fin 0) \<and>
   (threshold = ''median'' \<or> threshold = ''mean'' \<longrightarrow>
      priv_complexity_lempelziv [v] threshold True = Some (Inr (FloatV (Fin 0))))"
  using normalize_long [of sequence c] normalize_one [of sequence c]
    single_normalized [of threshold v] by blast

theorem normalize_values_witness:
  "1 < length [0, 1, 0, 1, 0, 1, 0, 1 :: int] \<and>
   priv_complexity_lempelziv_normalize [0, 1, 0, 1, 0, 1, 0, 1] 3 = Fin (9 / 8) \<and>
   length [1 :: int] = 1 \<and> (0 :: int) < 1 \<and>
   priv_complexity_lempelziv_normalize [1] 1 = Fin 0 \<and>
   priv_complexity_lempelziv [7] ''mean'' True = Some (Inr (FloatV (Fin 0)))"
  using normalize_values [of "[0, 1, 0, 1, 0, 1, 0, 1]" 3 "''mean''" 7]
    normalize_values [of "[1]" 1 "''mean''" 7]
  by (simp add: log2_8)

text \<open>
  C2, as the specification states it, fails: the raw complexity of
  \<open>[1, 2, 1, 2, 1, 2, 1, 2]\<close> is not 4.
\<close>

theorem alternating_counterexample:
  "priv_complexity_lempelziv [1, 2, 1, 2, 1, 2, 1, 2] ''median'' False \<noteq> Some (Inr (IntV 4))"
proof -
  have m: "np_median [1, 2, 1, 2, 1, 2, 1, 2] = Fin (3 / 2)"
    by (simp add: np_median_def np_mean_pair)
  have b: "priv_complexity_lempelziv_binarize [1, 2, 1, 2, 1, 2, 1, 2] ''median'' =
      Inr [0, 1, 0, 1, 0, 1, 0, 1]"
    by (simp add: binarize_median m)
  have r: "raw_complexity [0, 1, 0, 1, 0, 1, 0, 1] = Some (Inr 3)" by code_simp
  show ?thesis by (simp add: priv_complexity_lempelziv_def b r)
qed

text \<open>
  C2, amended: for \<open>[1, 2, 1, 2, 1, 2, 1, 2]\<close> with the mode \<open>"median"\<close> the
  binarized sequence is \<open>[0, 1, 0, 1, 0, 1, 0, 1]\<close>, the raw complexity is 3 (the
  phrases 0, 1 and 010101), and the normalized complexity is
  \<open>3 / (8 / log2(8)) = 1.125\<close>.
\<close>

theorem alternating_example:
  "priv_complexity_lempelziv_binarize [1, 2, 1, 2, 1, 2, 1, 2] ''median'' =
     Inr [0, 1, 0, 1, 0, 1, 0, 1] \<and>
   priv_complexity_lempelziv [1, 2, 1, 2, 1, 2, 1, 2] ''median'' False = Some (Inr (IntV 3)) \<and>
   priv_complexity_lempelziv [1, 2, 1, 2, 1, 2, 1, 2] ''median'' True =
     Some (Inr (FloatV (Fin (3 / (8 / log 2 8))))) \<and>
   3 / (8 / log 2 8) = (9 / 8 :: real)"
proof -
  have m: "np_median [1, 2, 1, 2, 1, 2, 1, 2] = Fin (3 / 2)"
    by (simp add: np_median_def np_mean_pair)
  have b: "priv_complexity_lempelziv_binarize [1, 2, 1, 2, 1, 2, 1, 2] ''median'' =
      Inr [0, 1, 0, 1, 0, 1, 0, 1]"
    by (simp add: binarize_median m)
  have r: "raw_complexity [0, 1, 0, 1, 0, 1, 0, 1] = Some (Inr 3)" by code_simp
  have n: "priv_complexity_lempelziv_normalize [0, 1, 0, 1, 0, 1, 0, 1] 3 =
      Fin (3 / (8 / log 2 8))"
    using normalize_long [of "[0, 1, 0, 1, 0, 1, 0, 1]" 3] by simp
  show ?thesis by (simp add: priv_complexity_lempelziv_def b r n log2_8)
qed

text \<open>
  C8, as the specification states it, fails: with the unknown mode \<open>"max"\<close> an empty
  sequence raises nothing and returns the complexity 1.
\<close>

theorem unknown_mode_counterexample:
  "priv_complexity_lempelziv [] ''max'' False = Some (Inr (IntV 1))"
  by (simp add: raw_complexity_def scan_loop.simps loop_cond_def init_state_def
      priv_complexity_lempelziv_def priv_complexity_lempelziv_binarize_def)

text \<open>
  C8, amended: when the threshold mode is a string other than \<open>"median"\<close> and
  \<open>"mean"\<close> and the sequence is not empty, the binarizer raises \<open>TypeError\<close> at the
  comparison of the first element with the mode, before any element is binarized
  and before the scan; nothing catches it, so \<open>_complexity_lempelziv\<close> and
  \<open>complexity_lempelziv\<close> raise it too.
\<close>

theorem unknown_mode_raises:
  assumes "signal \<noteq> []" and "threshold \<noteq> ''median''" and "threshold \<noteq> ''mean''"
  shows "priv_complexity_lempelziv_binarize signal threshold = Inl TypeError \<and>
         priv_complexity_lempelziv signal threshold normalize_flag = Some (Inl TypeError) \<and>
         complexity_lempelziv sanitize_multichannel (OneDim signal) threshold normalize_flag =
           Some (Inl TypeError)"
  using binarize_other [OF assms]
  by (simp add: priv_complexity_lempelziv_def complexity_lempelziv_def)

theorem unknown_mode_raises_witness:
  "[1, 2 :: real] \<noteq> [] \<and> ''max'' \<noteq> ''median'' \<and> ''max'' \<noteq> ''mean'' \<and>
   priv_complexity_lempelziv_binarize [1, 2] ''max'' = Inl TypeError \<and>
   priv_complexity_lempelziv [1, 2] ''max'' True = Some (Inl TypeError)"
  using unknown_mode_raises [of "[1, 2]" "''max''" True id] by simp

section \<open>Constant sequences\<close>

lemma const_loop:
  "1 \<le> k \<Longrightarrow> k \<le> int n \<Longrightarrow>
   scan_loop (replicate n x) (init_state\<lparr>current_substring_len := k\<rparr>) =
     Some (Inr (init_state\<lparr>current_substring_len := int n\<rparr>))"
proof (induction "nat (int n - k)" arbitrary: k)
  case 0
  then have "k = int n" by simp
  then show ?case
    by (subst scan_loop.simps) (simp add: loop_cond_def init_state_def)
next
  case (Suc d)
  let ?s = "init_state\<lparr>current_substring_len := k\<rparr>"
  from Suc.hyps(2) Suc.prems have lt: "k < int n" by simp
  have inv: "scan_inv ?s" using Suc.prems by (simp add: scan_inv_def init_state_def)
  have c: "loop_cond (replicate n x) ?s" using lt by (simp add: loop_cond_def init_state_def)
  have "replicate n x ! nat (pointer ?s + current_substring_len ?s - 1) =
        replicate n x ! nat (current_prefix_len ?s + current_substring_len ?s - 1)"
    using Suc.prems lt by (simp add: init_state_def)
  from body_match [OF inv c this]
  have b: "loop_body (replicate n x) ?s = Inr (init_state\<lparr>current_substring_len := k + 1\<rparr>)"
    by (simp add: init_state_def)
  have "scan_loop (replicate n x) (init_state\<lparr>current_substring_len := k + 1\<rparr>) =
      Some (Inr (init_state\<lparr>current_substring_len := int n\<rparr>))"
    using Suc.hyps(2) Suc.prems lt by (intro Suc.hyps(1)) simp_all
  with b c show ?case by (subst scan_loop.simps) simp
qed

lemma raw_const: "2 \<le> n \<Longrightarrow> raw_complexity (replicate n x) = Some (Inr 2)"
proof -
  assume n: "2 \<le> n"
  have "init_state\<lparr>current_substring_len := 1\<rparr> = init_state" by (simp add: init_state_def)
  with const_loop [of 1 n x] n
  have "scan_loop (replicate n x) init_state =
      Some (Inr (init_state\<lparr>current_substring_len := int n\<rparr>))" by simp
  with n show ?thesis by (simp add: raw_complexity_def init_state_def)
qed

lemma np_median_const: "0 < n \<Longrightarrow> np_median (replicate n v) = Fin v"
  by (simp add: np_median_def Let_def np_mean_pair sorted_sort_id)

lemma binarize_median_const:
  "0 < n \<Longrightarrow> priv_complexity_lempelziv_binarize (replicate n v) ''median'' = Inr (replicate n 1)"
  by (simp add: binarize_median np_median_const)

lemma binarize_loop_const:
  "binarize_loop (Level t) (replicate n v) =
     Inr (replicate n (if np_less v t then 0 else 1))"
  by (simp add: binarize_loop_Level)

lemma priv_const:
  assumes "2 \<le> n" and "threshold = ''median'' \<or> threshold = ''mean''"
  shows "priv_complexity_lempelziv (replicate n v) threshold False = Some (Inr (IntV 2))"
proof -
  from assms(2) obtain t where "resolve_threshold (replicate n v) threshold = Level t"
    unfolding resolve_threshold_def by auto
  then have "priv_complexity_lempelziv_binarize (replicate n v) threshold =
      Inr (replicate n (if np_less v t then 0 else 1))"
    by (simp only: priv_complexity_lempelziv_binarize_def binarize_loop_const)
  moreover have "raw_complexity (replicate n (if np_less v t then 0 else 1)) = Some (Inr 2)"
    using assms(1) by (rule raw_const)
  ultimately show ?thesis by (simp add: priv_complexity_lempelziv_def)
qed

text \<open>
  C4, as the specification states it, fails: the constant sequence \<open>[5, 5]\<close> has the
  raw complexity 2, not 1.
\<close>

theorem constant_counterexample:
  "priv_complexity_lempelziv [5, 5] ''median'' False = Some (Inr (IntV 2)) \<and>
   priv_complexity_lempelziv [5, 5] ''median'' False \<noteq> Some (Inr (IntV 1))"
proof -
  have "priv_complexity_lempelziv_binarize (replicate 2 5) ''median'' = Inr (replicate 2 1)"
    by (rule binarize_median_const) simp
  then have b: "priv_complexity_lempelziv_binarize [5, 5] ''median'' = Inr [1, 1]"
    by (simp add: numeral_2_eq_2)
  have r: "raw_complexity [1, 1] = Some (Inr 2)" by code_simp
  show ?thesis by (simp add: priv_complexity_lempelziv_def b r)
qed

text \<open>
  C4, amended: for every constant sequence of length \<open>n \<ge> 2\<close> the raw complexity is
  2, in the modes \<open>"median"\<close> and \<open>"mean"\<close>: the loop only ever extends the first
  match, and the increment after the loop counts it. The binarized sequence is
  constant whatever the threshold \<open>t\<close> is: all 0s when the constant is below \<open>t\<close>, all
  1s otherwise, and either has the raw complexity 2. In the mode \<open>"median"\<close> it is
  all 1s, the median being the constant itself (for an even length it is half the
  sum of two copies of the constant, which is exact as long as the sum is finite in
  \<open>float64\<close>, that is for a constant below \<open>2 ^ 1023\<close> in absolute value). In the mode
  \<open>"mean"\<close> nothing more is claimed: the rounded mean can exceed the constant, and
  then the sequence is all 0s.
\<close>

theorem constant_sequence:
  assumes "2 \<le> n"
  shows "(odd n \<or> \<bar>v\<bar> < 2 ^ 1023 \<longrightarrow>
            priv_complexity_lempelziv_binarize (replicate n v) ''median'' = Inr (replicate n 1)) \<and>
         binarize_loop (Level t) (replicate n v) =
           Inr (replicate n (if np_less v t then 0 else 1)) \<and>
         raw_complexity (replicate n 0) = Some (Inr 2) \<and>
         raw_complexity (replicate n 1) = Some (Inr 2) \<and>
         (threshold = ''median'' \<or> threshold = ''mean'' \<longrightarrow>
            priv_complexity_lempelziv (replicate n v) threshold False = Some (Inr (IntV 2)))"
proof -
  from assms have "0 < n" by simp
  then have "priv_complexity_lempelziv_binarize (replicate n v) ''median'' = Inr (replicate n 1)"
    by (rule binarize_median_const)
  moreover note binarize_loop_const [of t n v]
  moreover from assms have "raw_complexity (replicate n 0) = Some (Inr 2)" by (rule raw_const)
  moreover from assms have "raw_complexity (replicate n 1) = Some (Inr 2)" by (rule raw_const)
  moreover have "threshold = ''median'' \<or> threshold = ''mean'' \<longrightarrow>
      priv_complexity_lempelziv (replicate n v) threshold False = Some (Inr (IntV 2))"
    using priv_const [OF assms] by blast
  ultimately show ?thesis by blast
qed

theorem constant_sequence_witness:
  "(2 :: nat) \<le> 3 \<and> odd (3 :: nat) \<and>
   priv_complexity_lempelziv_binarize [1 / 10, 1 / 10, 1 / 10] ''median'' = Inr [1, 1, 1] \<and>
   binarize_loop (Level (Fin (10000000000000002 / 100000000000000000)))
     [1 / 10, 1 / 10, 1 / 10] = Inr [0, 0, 0] \<and>
   raw_complexity [0, 0, 0] = Some (Inr 2) \<and>
   raw_complexity [1, 1, 1] = Some (Inr 2) \<and>
   priv_complexity_lempelziv [1 / 10, 1 / 10, 1 / 10] ''mean'' False = Some (Inr (IntV 2))"
  using constant_sequence [of 3 "1 / 10" "Fin (10000000000000002 / 100000000000000000)" "''mean''"]
  by (simp add: numeral_3_eq_3)

section \<open>Multichannel input\<close>

lemma channels_loop_step:
  "(channels_loop fr (c # colnames) threshold nf acc = Some (Inr vals)) =
   (\<exists>v. channel_lzc (frame_getitem fr c) threshold nf = Some (Inr v) \<and>
        channels_loop fr colnames threshold nf (acc @ [v]) = Some (Inr vals))"
proof (cases "channel_lzc (frame_getitem fr c) threshold nf")
  case None
  then show ?thesis by simp
next
  case (Some r)
  then show ?thesis by (cases r) simp_all
qed

lemma cons_eq_map_some:
  "(y # ys = map (\<lambda>v. Some (Inr v)) new) =
   (\<exists>v rest. y = Some (Inr v) \<and> new = v # rest \<and> ys = map (\<lambda>v. Some (Inr v)) rest)"
  by (cases new) auto

lemma channels_loop_acc:
  "(channels_loop fr colnames threshold nf acc = Some (Inr vals)) =
   (\<exists>new. vals = acc @ new \<and>
      map (\<lambda>c. channel_lzc (frame_getitem fr c) threshold nf) colnames =
      map (\<lambda>v. Some (Inr v)) new)"
proof (induction colnames arbitrary: acc)
  case Nil
  show ?case by (simp add: eq_commute)
next
  case (Cons c colnames)
  let ?x = "channel_lzc (frame_getitem fr c) threshold nf"
  let ?xs = "map (\<lambda>c. channel_lzc (frame_getitem fr c) threshold nf) colnames"
  have "(channels_loop fr (c # colnames) threshold nf acc = Some (Inr vals)) =
      (\<exists>v. ?x = Some (Inr v) \<and>
        (\<exists>rest. vals = (acc @ [v]) @ rest \<and> ?xs = map (\<lambda>v. Some (Inr v)) rest))"
    unfolding channels_loop_step Cons.IH ..
  also have "\<dots> = (\<exists>new. vals = acc @ new \<and> ?x # ?xs = map (\<lambda>v. Some (Inr v)) new)"
    unfolding cons_eq_map_some by (simp only: append_assoc append_Cons append_Nil) blast
  finally show ?case unfolding list.map .
qed

lemma frame_getitem_mem: "col \<in> set fr \<Longrightarrow> snd col \<in> set (frame_getitem fr (fst col))"
  unfolding frame_getitem_def by (simp add: image_iff)

lemma frame_getitem_distinct:
  "distinct (map fst fr) \<Longrightarrow> col \<in> set fr \<Longrightarrow> frame_getitem fr (fst col) = [snd col]"
proof (induction fr)
  case Nil
  then show ?case by simp
next
  case (Cons x fr)
  from Cons.prems(1) have d: "distinct (map fst fr)" and nx: "fst x \<notin> fst ` set fr" by simp_all
  show ?case
  proof (cases "col = x")
    case True
    from nx have "filter (\<lambda>c. fst c = fst x) fr = []"
      by (auto simp add: filter_empty_conv image_iff)
    with True show ?thesis by (simp add: frame_getitem_def)
  next
    case False
    with Cons.prems(2) have m: "col \<in> set fr" by simp
    with nx have "fst x \<noteq> fst col" by (auto simp add: image_iff)
    with Cons.IH [OF d m] show ?thesis by (simp add: frame_getitem_def)
  qed
qed

lemma channel_lzc_single: "channel_lzc [channel] threshold nf = priv_complexity_lempelziv channel threshold nf"
  by (simp add: channel_lzc_def)

lemma channel_lzc_many:
  "channel_lzc (a # b # rest) threshold nf =
     (if list_all (\<lambda>channel. channel = []) (a # b # rest)
      then priv_complexity_lempelziv [] threshold nf
      else if threshold = ''median'' \<or> threshold = ''mean'' then Some (Inl ValueError)
      else Some (Inl TypeError))"
  unfolding channel_lzc_def list.case ..

lemma channel_lzc_returns:
  assumes "channel \<in> set columns" and "channel_lzc columns threshold nf = Some (Inr v)"
  shows "priv_complexity_lempelziv channel threshold nf = Some (Inr v)"
proof (cases columns)
  case Nil
  with assms(1) show ?thesis by simp
next
  case (Cons a rest)
  show ?thesis
  proof (cases rest)
    case Nil
    with Cons assms show ?thesis by (simp add: channel_lzc_def)
  next
    case (Cons b rest')
    with \<open>columns = a # rest\<close> have c: "columns = a # b # rest'" by simp
    have m: "channel_lzc columns threshold nf =
       (if list_all (\<lambda>channel. channel = []) columns
        then priv_complexity_lempelziv [] threshold nf
        else if threshold = ''median'' \<or> threshold = ''mean'' then Some (Inl ValueError)
        else Some (Inl TypeError))"
      unfolding c by (rule channel_lzc_many)
    have e: "list_all (\<lambda>channel. channel = []) columns"
    proof (rule ccontr)
      assume "\<not> list_all (\<lambda>channel. channel = []) columns"
      with m have "channel_lzc columns threshold nf =
          (if threshold = ''median'' \<or> threshold = ''mean'' then Some (Inl ValueError)
           else Some (Inl TypeError))"
        by (simp only: if_False)
      with assms(2) show False by (simp split: if_splits)
    qed
    with m have "channel_lzc columns threshold nf = priv_complexity_lempelziv [] threshold nf"
      by (simp only: if_True)
    moreover from e assms(1) have "channel = []" by (simp add: list_all_iff)
    ultimately show ?thesis using assms(2) by simp
  qed
qed

lemma per_channel:
  assumes "map (\<lambda>c. channel_lzc (frame_getitem fr c) threshold nf) (map fst fr) =
           map (\<lambda>v. Some (Inr v)) vals"
  shows "map (\<lambda>col. priv_complexity_lempelziv (snd col) threshold nf) fr =
         map (\<lambda>v. Some (Inr v)) vals"
proof (rule nth_equalityI)
  from arg_cong [OF assms, of length] show len: "length (map (\<lambda>col. priv_complexity_lempelziv (snd col) threshold nf) fr) =
      length (map (\<lambda>v. Some (Inr v) :: (error + lzc) option) vals)" by simp
  fix i
  assume "i < length (map (\<lambda>col. priv_complexity_lempelziv (snd col) threshold nf) fr)"
  then have i: "i < length fr" by simp
  with len have iv: "i < length vals" by simp
  from arg_cong [OF assms, of "\<lambda>l. l ! i"] i iv
  have "channel_lzc (frame_getitem fr (fst (fr ! i))) threshold nf = Some (Inr (vals ! i))"
    by simp
  moreover from i have "snd (fr ! i) \<in> set (frame_getitem fr (fst (fr ! i)))"
    by (intro frame_getitem_mem) simp
  ultimately have "priv_complexity_lempelziv (snd (fr ! i)) threshold nf = Some (Inr (vals ! i))"
    by (rule channel_lzc_returns [rotated])
  with i iv show "map (\<lambda>col. priv_complexity_lempelziv (snd col) threshold nf) fr ! i =
      map (\<lambda>v. Some (Inr v)) vals ! i" by simp
qed

lemma frame_columns:
  assumes "distinct (map fst fr)"
  shows "map (\<lambda>c. channel_lzc (frame_getitem fr c) threshold nf) (map fst fr) =
         map (\<lambda>col. priv_complexity_lempelziv (snd col) threshold nf) fr"
proof -
  have "channel_lzc (frame_getitem fr (fst col)) threshold nf =
        priv_complexity_lempelziv (snd col) threshold nf" if "col \<in> set fr" for col
    by (simp only: frame_getitem_distinct [OF assms that] channel_lzc_single)
  then show ?thesis by (simp add: comp_def)
qed

lemma priv_raw_int:
  "priv_complexity_lempelziv signal threshold False = Some (Inr v) \<Longrightarrow> \<exists>k. v = IntV k"
  by (auto simp add: priv_complexity_lempelziv_def split: sum.splits option.splits)

lemma raw_values_int:
  assumes "map (\<lambda>col. priv_complexity_lempelziv (snd col) threshold False) fr =
           map (\<lambda>v. Some (Inr v)) vals"
  shows "\<exists>ks. vals = map IntV ks"
proof -
  have "\<exists>k. v = IntV k" if "v \<in> set vals" for v
  proof -
    from that obtain i where i: "i < length vals" and v: "vals ! i = v"
      by (auto simp add: in_set_conv_nth)
    from arg_cong [OF assms, of length] i have "i < length fr" by simp
    with arg_cong [OF assms, of "\<lambda>l. l ! i"] i v
    have "priv_complexity_lempelziv (snd (fr ! i)) threshold False = Some (Inr v)" by simp
    then show ?thesis by (rule priv_raw_int)
  qed
  then show ?thesis by (simp add: ex_map_conv)
qed

lemma lzc_float_mean:
  assumes "ks \<noteq> []"
  shows "np_mean (map lzc_float (map IntV ks)) =
         Fin (real_of_int (sum_list ks) / real (length ks))"
proof -
  have a: "map lzc_float (map IntV ks) = map Fin (map real_of_int ks)"
    by (simp add: lzc_float_def of_pyint_def)
  have s: "sum_list (map real_of_int ks) = real_of_int (sum_list ks)"
    by (induction ks) simp_all
  have m: "np_mean (map Fin (map real_of_int ks)) =
      Fin (sum_list (map real_of_int ks) / real (length ks))"
    using assms np_mean_Fin [of "map real_of_int ks"] by simp
  show ?thesis by (simp only: a m s)
qed

lemma lzc_float_mean_fin:
  assumes "xs \<noteq> []"
  shows "np_mean (map lzc_float (map (\<lambda>x. FloatV (Fin x)) xs)) =
         Fin (sum_list xs / real (length xs))"
proof -
  have a: "map lzc_float (map (\<lambda>x. FloatV (Fin x)) xs) = map Fin xs"
    by (simp add: lzc_float_def)
  show ?thesis unfolding a using assms by (rule np_mean_Fin)
qed

lemma multi_unfold:
  "complexity_lempelziv sanitize_multichannel (MultiDim m) threshold nf =
     (case channels_loop (sanitize_multichannel m) (map fst (sanitize_multichannel m))
             threshold nf [] of
        None \<Rightarrow> None
      | Some (Inl e) \<Rightarrow> Some (Inl e)
      | Some (Inr lzc_values) \<Rightarrow>
          Some (Inr (FloatV (np_mean (map lzc_float lzc_values)),
                     [''threshold'' \<mapsto> PStr threshold, ''normalize'' \<mapsto> PBool nf,
                      ''values'' \<mapsto> PList lzc_values])))"
  unfolding complexity_lempelziv_def Let_def signal.case ..

lemma multi_returns:
  "(complexity_lempelziv sanitize_multichannel (MultiDim m) threshold nf =
      Some (Inr (out, params))) =
   (\<exists>vals.
      map (\<lambda>c. channel_lzc (frame_getitem (sanitize_multichannel m) c) threshold nf)
        (map fst (sanitize_multichannel m)) = map (\<lambda>v. Some (Inr v)) vals \<and>
      out = FloatV (np_mean (map lzc_float vals)) \<and>
      params = [''threshold'' \<mapsto> PStr threshold, ''normalize'' \<mapsto> PBool nf,
                ''values'' \<mapsto> PList vals])"
proof -
  define fr where "fr = sanitize_multichannel m"
  define P where "P = (\<lambda>vals. [''threshold'' \<mapsto> PStr threshold, ''normalize'' \<mapsto> PBool nf,
                      ''values'' \<mapsto> PList vals])"
  define R where "R = channels_loop fr (map fst fr) threshold nf []"
  define M where "M = map (\<lambda>c. channel_lzc (frame_getitem fr c) threshold nf) (map fst fr)"
  have l: "(R = Some (Inr vals)) = (M = map (\<lambda>v. Some (Inr v)) vals)" for vals
    unfolding R_def M_def channels_loop_acc append_Nil by blast
  have c: "complexity_lempelziv sanitize_multichannel (MultiDim m) threshold nf =
     (case R of None \<Rightarrow> None | Some (Inl e) \<Rightarrow> Some (Inl e)
      | Some (Inr vs) \<Rightarrow> Some (Inr (FloatV (np_mean (map lzc_float vs)), P vs)))"
    unfolding R_def P_def fr_def by (rule multi_unfold)
  have "(complexity_lempelziv sanitize_multichannel (MultiDim m) threshold nf =
            Some (Inr (out, params))) =
        (\<exists>vals. M = map (\<lambda>v. Some (Inr v)) vals \<and>
            out = FloatV (np_mean (map lzc_float vals)) \<and> params = P vals)"
  proof (cases R)
    case None
    then have "M \<noteq> map (\<lambda>v. Some (Inr v)) vals" for vals using l [of vals] by simp
    with None show ?thesis by (simp add: c)
  next
    case (Some r)
    show ?thesis
    proof (cases r)
      case (Inl e)
      with Some have "M \<noteq> map (\<lambda>v. Some (Inr v)) vals" for vals using l [of vals] by simp
      with Some Inl show ?thesis by (simp add: c)
    next
      case (Inr vs)
      with Some l [of vs] have e: "M = map (\<lambda>v. Some (Inr v)) vs" by simp
      have "inj (\<lambda>v. Some (Inr v) :: (error + lzc) option)" by (simp add: inj_def)
      then have u: "(M = map (\<lambda>v. Some (Inr v)) vals) = (vals = vs)" for vals
        unfolding e by (auto simp add: inj_map_eq_map)
      from Some Inr have "complexity_lempelziv sanitize_multichannel (MultiDim m) threshold nf =
          Some (Inr (FloatV (np_mean (map lzc_float vs)), P vs))" by (simp add: c)
      then show ?thesis unfolding u by auto
    qed
  qed
  then show ?thesis unfolding M_def P_def fr_def .
qed

text \<open>
  C6: whenever \<open>complexity_lempelziv\<close> returns \<open>(out, params)\<close> for a multichannel
  input, every channel of the frame, run on its own through \<open>_complexity_lempelziv\<close>,
  returns a complexity; \<open>params\<close> holds the threshold mode, the normalize flag and,
  under \<open>'values'\<close>, the list of those complexities in the order of the channels; and
  \<open>out\<close> is their mean as \<open>np.mean\<close> computes it, which for raw counts (all of them,
  without normalization) and for finite normalized values is their sum divided by
  their number, up to \<open>float64\<close> rounding of the quotient. Conversely, for a frame
  whose column names are distinct, the call returns as soon as every channel does.
  (A name carried by several columns selects a two-dimensional array; the call then
  returns only when those columns have no rows.)
\<close>

theorem multichannel_mean:
  "(complexity_lempelziv sanitize_multichannel (MultiDim m) threshold nf =
      Some (Inr (out, params)) \<longrightarrow>
    (\<exists>vals.
       map (\<lambda>col. priv_complexity_lempelziv (snd col) threshold nf) (sanitize_multichannel m) =
         map (\<lambda>v. Some (Inr v)) vals \<and>
       params = [''threshold'' \<mapsto> PStr threshold, ''normalize'' \<mapsto> PBool nf,
                 ''values'' \<mapsto> PList vals] \<and>
       out = FloatV (np_mean (map lzc_float vals)) \<and>
       (\<not> nf \<longrightarrow> (\<exists>ks. vals = map IntV ks)) \<and>
       (\<forall>ks. vals = map IntV ks \<and> ks \<noteq> [] \<longrightarrow>
          out = FloatV (Fin (real_of_int (sum_list ks) / real (length ks)))) \<and>
       (\<forall>xs. vals = map (\<lambda>x. FloatV (Fin x)) xs \<and> xs \<noteq> [] \<longrightarrow>
          out = FloatV (Fin (sum_list xs / real (length xs)))))) \<and>
   (distinct (map fst (sanitize_multichannel m)) \<and>
    map (\<lambda>col. priv_complexity_lempelziv (snd col) threshold nf) (sanitize_multichannel m) =
      map (\<lambda>v. Some (Inr v)) results \<longrightarrow>
    complexity_lempelziv sanitize_multichannel (MultiDim m) threshold nf =
      Some (Inr (FloatV (np_mean (map lzc_float results)),
                 [''threshold'' \<mapsto> PStr threshold, ''normalize'' \<mapsto> PBool nf,
                  ''values'' \<mapsto> PList results])))"
proof (intro conjI impI)
  assume "complexity_lempelziv sanitize_multichannel (MultiDim m) threshold nf =
      Some (Inr (out, params))"
  then obtain vals where
    M: "map (\<lambda>c. channel_lzc (frame_getitem (sanitize_multichannel m) c) threshold nf)
          (map fst (sanitize_multichannel m)) = map (\<lambda>v. Some (Inr v)) vals" and
    o: "out = FloatV (np_mean (map lzc_float vals))" and
    p: "params = [''threshold'' \<mapsto> PStr threshold, ''normalize'' \<mapsto> PBool nf,
                  ''values'' \<mapsto> PList vals]"
    unfolding multi_returns by blast
  note c = per_channel [OF M]
  have i: "\<not> nf \<longrightarrow> (\<exists>ks. vals = map IntV ks)"
  proof
    assume "\<not> nf"
    then have "nf = False" by simp
    with c show "\<exists>ks. vals = map IntV ks" by (intro raw_values_int) simp
  qed
  have k: "\<forall>ks. vals = map IntV ks \<and> ks \<noteq> [] \<longrightarrow>
      out = FloatV (Fin (real_of_int (sum_list ks) / real (length ks)))"
  proof (intro allI impI)
    fix ks
    assume "vals = map IntV ks \<and> ks \<noteq> []"
    then have "np_mean (map lzc_float vals) = Fin (real_of_int (sum_list ks) / real (length ks))"
      using lzc_float_mean [of ks] by simp
    with o show "out = FloatV (Fin (real_of_int (sum_list ks) / real (length ks)))" by simp
  qed
  have x: "\<forall>xs. vals = map (\<lambda>x. FloatV (Fin x)) xs \<and> xs \<noteq> [] \<longrightarrow>
      out = FloatV (Fin (sum_list xs / real (length xs)))"
  proof (intro allI impI)
    fix xs
    assume "vals = map (\<lambda>x. FloatV (Fin x)) xs \<and> xs \<noteq> []"
    then have "np_mean (map lzc_float vals) = Fin (sum_list xs / real (length xs))"
      using lzc_float_mean_fin [of xs] by simp
    with o show "out = FloatV (Fin (sum_list xs / real (length xs)))" by simp
  qed
  from c p o i k x show "\<exists>vals.
       map (\<lambda>col. priv_complexity_lempelziv (snd col) threshold nf) (sanitize_multichannel m) =
         map (\<lambda>v. Some (Inr v)) vals \<and>
       params = [''threshold'' \<mapsto> PStr threshold, ''normalize'' \<mapsto> PBool nf,
                 ''values'' \<mapsto> PList vals] \<and>
       out = FloatV (np_mean (map lzc_float vals)) \<and>
       (\<not> nf \<longrightarrow> (\<exists>ks. vals = map IntV ks)) \<and>
       (\<forall>ks. vals = map IntV ks \<and> ks \<noteq> [] \<longrightarrow>
          out = FloatV (Fin (real_of_int (sum_list ks) / real (length ks)))) \<and>
       (\<forall>xs. vals = map (\<lambda>x. FloatV (Fin x)) xs \<and> xs \<noteq> [] \<longrightarrow>
          out = FloatV (Fin (sum_list xs / real (length xs))))"
    by (intro exI [of _ vals] conjI)
next
  assume a: "distinct (map fst (sanitize_multichannel m)) \<and>
    map (\<lambda>col. priv_complexity_lempelziv (snd col) threshold nf) (sanitize_multichannel m) =
      map (\<lambda>v. Some (Inr v)) results"
  then have "map (\<lambda>c. channel_lzc (frame_getitem (sanitize_multichannel m) c) threshold nf)
          (map fst (sanitize_multichannel m)) = map (\<lambda>v. Some (Inr v)) results"
    by (simp only: frame_columns)
  then show "complexity_lempelziv sanitize_multichannel (MultiDim m) threshold nf =
      Some (Inr (FloatV (np_mean (map lzc_float results)),
                 [''threshold'' \<mapsto> PStr threshold, ''normalize'' \<mapsto> PBool nf,
                  ''values'' \<mapsto> PList results]))"
    unfolding multi_returns by blast
qed

theorem multichannel_mean_witness:
  "distinct (map fst [(''a'', [1, 2, 1, 2 :: real]), (''b'', [3, 3])]) \<and>
   map (\<lambda>col. priv_complexity_lempelziv (snd col) ''median'' False)
     [(''a'', [1, 2, 1, 2]), (''b'', [3, 3])] = map (\<lambda>v. Some (Inr v)) [IntV 3, IntV 2] \<and>
   complexity_lempelziv (\<lambda>m. m) (MultiDim [(''a'', [1, 2, 1, 2]), (''b'', [3, 3])])
     ''median'' False =
   Some (Inr (FloatV (np_mean (map lzc_float [IntV 3, IntV 2])),
     [''threshold'' \<mapsto> PStr ''median'', ''normalize'' \<mapsto> PBool False,
      ''values'' \<mapsto> PList [IntV 3, IntV 2]])) \<and>
   FloatV (np_mean (map lzc_float [IntV 3, IntV 2])) = FloatV (Fin (5 / 2))"
proof -
  have d: "distinct (map fst [(''a'', [1, 2, 1, 2 :: real]), (''b'', [3, 3])])"
    by simp
  have ma: "np_median [1, 2, 1, 2] = Fin (3 / 2)"
    by (simp add: np_median_def np_mean_pair)
  have mb: "np_median [3, 3] = Fin 3"
    by (simp add: np_median_def np_mean_pair)
  have ba: "priv_complexity_lempelziv_binarize [1, 2, 1, 2] ''median'' = Inr [0, 1, 0, 1]"
    by (simp add: binarize_median ma)
  have bb: "priv_complexity_lempelziv_binarize [3, 3] ''median'' = Inr [1, 1]"
    by (simp add: binarize_median mb)
  have ra: "raw_complexity [0, 1, 0, 1] = Some (Inr 3)" by code_simp
  have rb: "raw_complexity [1, 1] = Some (Inr 2)" by code_simp
  have a: "priv_complexity_lempelziv [1, 2, 1, 2] ''median'' False = Some (Inr (IntV 3))"
    by (simp add: priv_complexity_lempelziv_def ba ra)
  have b: "priv_complexity_lempelziv [3, 3] ''median'' False = Some (Inr (IntV 2))"
    by (simp add: priv_complexity_lempelziv_def bb rb)
  have c: "map (\<lambda>col. priv_complexity_lempelziv (snd col) ''median'' False)
        [(''a'', [1, 2, 1, 2]), (''b'', [3, 3])] =
      map (\<lambda>v. Some (Inr v)) [IntV 3, IntV 2]"
    by (simp add: a b)
  note t = multichannel_mean [of "\<lambda>m. m" "[(''a'', [1, 2, 1, 2]), (''b'', [3, 3])]"
      "''median''" False "FloatV (np_mean (map lzc_float [IntV 3, IntV 2]))"
      "[''threshold'' \<mapsto> PStr ''median'', ''normalize'' \<mapsto> PBool False,
        ''values'' \<mapsto> PList [IntV 3, IntV 2]]" "[IntV 3, IntV 2]"]
  from t d c have r: "complexity_lempelziv (\<lambda>m. m)
      (MultiDim [(''a'', [1, 2, 1, 2]), (''b'', [3, 3])]) ''median'' False =
      Some (Inr (FloatV (np_mean (map lzc_float [IntV 3, IntV 2])),
        [''threshold'' \<mapsto> PStr ''median'', ''normalize'' \<mapsto> PBool False,
         ''values'' \<mapsto> PList [IntV 3, IntV 2]]))" by blast
  with t obtain vals where
    v: "map (\<lambda>col. priv_complexity_lempelziv (snd col) ''median'' False)
        [(''a'', [1, 2, 1, 2]), (''b'', [3, 3])] = map (\<lambda>v. Some (Inr v)) vals" and
    k: "\<forall>ks. vals = map IntV ks \<and> ks \<noteq> [] \<longrightarrow>
        FloatV (np_mean (map lzc_float [IntV 3, IntV 2])) =
        FloatV (Fin (real_of_int (sum_list ks) / real (length ks)))"
    by blast
  have j: "inj (\<lambda>v. Some (Inr v) :: (error + lzc) option)" by (simp add: inj_def)
  have "map (\<lambda>v. Some (Inr v) :: (error + lzc) option) vals =
      map (\<lambda>v. Some (Inr v)) [IntV 3, IntV 2]"
    by (rule trans [OF v [symmetric] c])
  then have "vals = [IntV 3, IntV 2]" by (simp only: inj_map_eq_map [OF j])
  then have "vals = map IntV [3, 2] \<and> [3, 2 :: int] \<noteq> []" by simp
  with k have "FloatV (np_mean (map lzc_float [IntV 3, IntV 2])) =
        FloatV (Fin (real_of_int (sum_list [3, 2]) / real (length [3, 2 :: int])))"
    by blast
  then have "FloatV (np_mean (map lzc_float [IntV 3, IntV 2])) = FloatV (Fin (5 / 2))"
    by simp
  with d c r show ?thesis by (intro conjI)
qed

text \<open>
  A frame in which two columns carry the same name and have rows: the first channel is
  a two-dimensional array, and the binarizer raises \<open>ValueError\<close> at its first row.
\<close>

lemma duplicate_columns_raise:
  "complexity_lempelziv (\<lambda>m. m) (MultiDim [(''a'', [1, 2]), (''a'', [3, 4])]) ''median'' False =
     Some (Inl ValueError)"
  by (simp add: complexity_lempelziv_def frame_getitem_def channel_lzc_def)

end
